theory Spec2Isabelle
  imports Complex_Main "HOL-Library.Log_Nat"
begin

section \<open>Data model of diarize\_transcribe.ipynb\<close>

text \<open>
  The notebook combines two library results: the Whisper transcript
  (\<^verbatim>\<open>result['segments']\<close>, a list of dicts read at the keys \<^verbatim>\<open>'start'\<close>,
  \<^verbatim>\<open>'end'\<close> and \<^verbatim>\<open>'text'\<close>) and the pyannote diarization
  (\<^verbatim>\<open>diarization_list\<close>, a list of triples \<^verbatim>\<open>(turn, _, speaker)\<close> whose first
  component has the attributes \<^verbatim>\<open>start\<close> and \<^verbatim>\<open>end\<close>).

  Times are Python floats. A finite double is a rational number, and times are values
  of type \<^typ>\<open>rat\<close>; the single subtraction of the loop rounds its result to the
  nearest double, as the float subtraction does. NaN, the infinities and the negative
  zero are not represented. A Python \<^verbatim>\<open>str\<close> is a \<^typ>\<open>string\<close> whose characters
  are the code points below 256.
\<close>

record segment =
  segment_start :: rat
  segment_end :: rat
  segment_text :: string

record turn =
  turn_start :: rat
  turn_end :: rat

text \<open>One entry of \<^verbatim>\<open>diarization_list\<close>: the turn, the track name (ignored by the
  loop, bound to \<^verbatim>\<open>_\<close>) and the speaker label.\<close>

type_synonym track = "turn \<times> string \<times> string"

text \<open>
  The variables of the notebook that the combine cell reads and writes across loop
  iterations, and the content of the file
  \<^verbatim>\<open>Transcription/transcription_with_speakers.txt\<close>. A notebook keeps its globals
  between cell executions, so the cell starts from an arbitrary such state.
  \<^verbatim>\<open>current_speaker\<close> is \<^verbatim>\<open>None\<close> or a label.
\<close>

record state =
  max_overlap :: rat
  current_speaker :: "string option"
  f_content :: string

section \<open>Double-precision subtraction\<close>

text \<open>
  The times are Python floats, that is IEEE 754 binary64 numbers, and
  \<^verbatim>\<open>overlap_end - overlap_start\<close> is the float subtraction: the exact difference
  rounded to the nearest double, ties to the even significand. A double is an integer
  below \<open>2 ^ 53\<close> in absolute value times a power of two with exponent at least
  \<open>-1074\<close>.
\<close>

text \<open>Rounding to the nearest integer, ties to the even one.\<close>

definition round_half_even :: "rat \<Rightarrow> int" where
  "round_half_even x =
     (let fl = \<lfloor>x\<rfloor>; r = x - of_int fl
      in if r < 1 / 2 then fl else if 1 / 2 < r then fl + 1
         else if even fl then fl else fl + 1)"

text \<open>The binary exponent of a rational other than 0: the \<open>e\<close> with
  \<open>2 powi e \<le> \<bar>x\<bar> < 2 powi (e + 1)\<close>, from the bit lengths of numerator and
  denominator.\<close>

definition exponent :: "rat \<Rightarrow> int" where
  "exponent x =
     (case quotient_of x of (p, q) \<Rightarrow>
        let d = bitlen \<bar>p\<bar> - bitlen q
        in if 2 powi d \<le> \<bar>x\<bar> then d else d - 1)"

text \<open>The nearest double: the significand has 53 bits, and below \<open>2 powi (-1022)\<close>
  (the subnormal range) the spacing stays \<open>2 powi (-1074)\<close>. Overflow to an infinity,
  beyond about \<open>1.8e308\<close>, is not modelled.\<close>

definition round_double :: "rat \<Rightarrow> rat" where
  "round_double x =
     (if x = 0 then 0
      else let q = max (exponent x) (- 1022) - 52
           in sgn x * of_int (round_half_even (\<bar>x\<bar> / 2 powi q)) * 2 powi q)"

definition float_sub :: "rat \<Rightarrow> rat \<Rightarrow> rat" where
  "float_sub a b = round_double (a - b)"

section \<open>The overlap computation\<close>

text \<open>
  \<^verbatim>\<open>
  overlap_start = max(segment_start, turn.start)
  overlap_end = min(segment_end, turn.end)
  overlap = max(0, overlap_end - overlap_start)
  \<close>
  The subtraction is the float subtraction.
\<close>

definition overlap :: "rat \<Rightarrow> rat \<Rightarrow> turn \<Rightarrow> rat" where
  "overlap seg_start seg_end t =
     (let overlap_start = max seg_start (turn_start t);
          overlap_end = min seg_end (turn_end t)
      in max 0 (float_sub overlap_end overlap_start))"

text \<open>The length of the closed interval from \<open>lo\<close> to \<open>hi\<close>, which is empty
  when \<open>hi < lo\<close>. This is the specification's notion, not a function of the code.\<close>

definition interval_length :: "rat \<Rightarrow> rat \<Rightarrow> rat" where
  "interval_length lo hi = (if lo \<le> hi then hi - lo else 0)"

section \<open>The matching loop\<close>

text \<open>
  The body of \<^verbatim>\<open>for turn, _, speaker in diarization_list\<close>:
  \<^verbatim>\<open>
  if overlap > max_overlap:
      max_overlap = overlap
      current_speaker = speaker
  \<close>
\<close>

fun turn_body :: "rat \<Rightarrow> rat \<Rightarrow> track \<Rightarrow> state \<Rightarrow> state" where
  "turn_body seg_start seg_end (t, _, speaker) st =
     (if overlap seg_start seg_end t > max_overlap st
      then st\<lparr>max_overlap := overlap seg_start seg_end t, current_speaker := Some speaker\<rparr>
      else st)"

fun turn_loop :: "rat \<Rightarrow> rat \<Rightarrow> track list \<Rightarrow> state \<Rightarrow> state" where
  "turn_loop seg_start seg_end [] st = st"
| "turn_loop seg_start seg_end (x # diarization_list) st =
     turn_loop seg_start seg_end diarization_list (turn_body seg_start seg_end x st)"

section \<open>Formatting\<close>

text \<open>
  Python's \<^verbatim>\<open>str.strip()\<close> removes leading and trailing whitespace. Below code
  point 256 the characters with \<^verbatim>\<open>str.isspace\<close> are 9 to 13, 28 to 32, 133 and 160.
\<close>

definition isspace :: "char \<Rightarrow> bool" where
  "isspace c = ((of_char c :: nat) \<in> {9, 10, 11, 12, 13, 28, 29, 30, 31, 32, 133, 160})"

definition lstrip :: "string \<Rightarrow> string" where
  "lstrip s = dropWhile isspace s"

definition rstrip :: "string \<Rightarrow> string" where
  "rstrip s = rev (dropWhile isspace (rev s))"

definition strip :: "string \<Rightarrow> string" where
  "strip s = rstrip (lstrip s)"

text \<open>The decimal digits of a natural number, most significant first.\<close>

fun decimal :: "nat \<Rightarrow> string" where
  "decimal n =
     (if n < 10 then [''0123456789'' ! n]
      else decimal (n div 10) @ [''0123456789'' ! (n mod 10)])"

declare decimal.simps [simp del]

text \<open>The format specification \<^verbatim>\<open>:.1f\<close>: sign, integer part, a point and one
  digit. Python's float formatting is correctly rounded: it rounds the exact value of
  the float to the nearest tenth, ties to the even digit.\<close>

definition format_1f :: "rat \<Rightarrow> string" where
  "format_1f x =
     (let n = nat (round_half_even (\<bar>x\<bar> * 10))
      in (if x < 0 then ''-'' else '''') @ decimal (n div 10) @ ''.'' @ decimal (n mod 10))"

text \<open>What an f-string replacement field shows for \<^verbatim>\<open>current_speaker\<close>:
  \<^verbatim>\<open>str(None)\<close> is \<^verbatim>\<open>'None'\<close>, a label is shown as it is.\<close>

fun str_speaker :: "string option \<Rightarrow> string" where
  "str_speaker None = ''None''"
| "str_speaker (Some speaker) = speaker"

text \<open>
  \<^verbatim>\<open>
  start_time = f"{segment_start:.1f}s"
  end_time = f"{segment_end:.1f}s"
  line = f"[{start_time} -> {end_time}] {current_speaker}: {segment_text.strip()}\n"
  \<close>
  \<open>line_text\<close> is the line without its final newline.
\<close>

definition line_text :: "rat \<Rightarrow> rat \<Rightarrow> string option \<Rightarrow> string \<Rightarrow> string" where
  "line_text seg_start seg_end speaker text =
     (let start_time = format_1f seg_start @ ''s'';
          end_time = format_1f seg_end @ ''s''
      in ''['' @ start_time @ '' -> '' @ end_time @ ''] '' @ str_speaker speaker @ '': ''
         @ strip text)"

definition line :: "rat \<Rightarrow> rat \<Rightarrow> string option \<Rightarrow> string \<Rightarrow> string" where
  "line seg_start seg_end speaker text =
     line_text seg_start seg_end speaker text @ [CHR 0x0A]"

section \<open>The combine cell\<close>

text \<open>
  The body of \<^verbatim>\<open>for segment in result['segments']\<close>: reset
  \<^verbatim>\<open>max_overlap\<close> and \<^verbatim>\<open>current_speaker\<close>, run the inner loop, format the line
  and append it to the file (\<^verbatim>\<open>f.write(line)\<close>). The \<^verbatim>\<open>print\<close> of the same line
  to the notebook's output is not modelled.
\<close>

definition segment_body :: "track list \<Rightarrow> segment \<Rightarrow> state \<Rightarrow> state" where
  "segment_body diarization_list seg st =
     (let st1 = st\<lparr>max_overlap := 0, current_speaker := None\<rparr>;
          st2 = turn_loop (segment_start seg) (segment_end seg) diarization_list st1
      in st2\<lparr>f_content := f_content st2 @
           line (segment_start seg) (segment_end seg) (current_speaker st2) (segment_text seg)\<rparr>)"

fun segment_loop :: "track list \<Rightarrow> segment list \<Rightarrow> state \<Rightarrow> state" where
  "segment_loop diarization_list [] st = st"
| "segment_loop diarization_list (seg # segments) st =
     segment_loop diarization_list segments (segment_body diarization_list seg st)"

text \<open>\<^verbatim>\<open>with open(output_path, 'w', encoding='utf-8') as f\<close> truncates the file, then
  the loop runs.\<close>

definition combine :: "segment list \<Rightarrow> track list \<Rightarrow> state \<Rightarrow> state" where
  "combine segments diarization_list st =
     segment_loop diarization_list segments (st\<lparr>f_content := ''''\<rparr>)"

text \<open>The lines of a text: the maximal runs of characters ended by a newline
  (code point 10); characters after the last newline form no line.\<close>

fun lines_from :: "string \<Rightarrow> string \<Rightarrow> string list" where
  "lines_from cur [] = []"
| "lines_from cur (c # cs) =
     (if c = CHR 0x0A then rev cur # lines_from [] cs else lines_from (c # cur) cs)"

definition lines :: "string \<Rightarrow> string list" where
  "lines s = lines_from [] s"

section \<open>The configuration cell\<close>

text \<open>
  \<^verbatim>\<open>
  load_dotenv()
  HF_TOKEN = os.getenv('HF_TOKEN')
  if not HF_TOKEN:
      raise ValueError("HF_TOKEN not found in environment variables. Please set it up first.")
  \<close>
  The process environment is a map from names to values. \<^verbatim>\<open>load_dotenv\<close> is a
  library function that updates the environment from a \<^verbatim>\<open>.env\<close> file; it is a
  parameter of the model. \<^verbatim>\<open>os.getenv\<close> reads the environment it leaves, and
  \<^verbatim>\<open>not HF_TOKEN\<close> holds for \<^verbatim>\<open>None\<close> and for the empty string.
\<close>

type_synonym environ = "string \<rightharpoonup> string"

datatype exception = ValueError string

definition Configuration :: "(environ \<Rightarrow> environ) \<Rightarrow> environ \<Rightarrow> exception + string" where
  "Configuration load_dotenv environ =
     (case (load_dotenv environ) ''HF_TOKEN'' of
        None \<Rightarrow> Inl (ValueError
          ''HF_TOKEN not found in environment variables. Please set it up first.'')
      | Some HF_TOKEN \<Rightarrow>
          if HF_TOKEN = '''' then Inl (ValueError
            ''HF_TOKEN not found in environment variables. Please set it up first.'')
          else Inr HF_TOKEN)"

text \<open>
  The model initialization cell loads the Whisper model \<^verbatim>\<open>large-v3\<close> and then the
  pyannote pipeline with \<^verbatim>\<open>use_auth_token=HF_TOKEN\<close>. The loads are library calls;
  the model records which ones are made, in order.
\<close>

datatype loaded = Whisper_model string | Pipeline string string

definition Model_Initialization :: "string \<Rightarrow> loaded list" where
  "Model_Initialization HF_TOKEN =
     [Whisper_model ''large-v3'', Pipeline ''pyannote/speaker-diarization-3.1'' HF_TOKEN]"

text \<open>The two cells run top to bottom; an exception raised by a cell stops the run, so
  the cells below it are not executed. The result is the list of models loaded and the
  outcome of the configuration cell.\<close>

definition run_cells ::
  "(environ \<Rightarrow> environ) \<Rightarrow> environ \<Rightarrow> loaded list \<times> (exception + string)" where
  "run_cells load_dotenv environ =
     (case Configuration load_dotenv environ of
        Inl e \<Rightarrow> ([], Inl e)
      | Inr HF_TOKEN \<Rightarrow> (Model_Initialization HF_TOKEN, Inr HF_TOKEN))"

section \<open>Properties of the double-precision subtraction\<close>

lemma powi_nat: "0 \<le> k \<Longrightarrow> (2::rat) powi k = 2 ^ nat k"
  by (simp add: power_int_def)

lemma powi_less_cancel: "(2::rat) powi a < 2 powi b \<Longrightarrow> a < b"
  using power_int_increasing [of b a "2::rat"] by (cases "a < b") simp_all

lemma bitlen_bounds_rat:
  assumes "0 < n"
  shows "(2::rat) powi (bitlen n - 1) \<le> of_int n" and "of_int n < (2::rat) powi bitlen n"
proof -
  have k: "1 \<le> bitlen n"
    using assms by (auto simp: bitlen_alt_def)
  from bitlen_bounds [OF assms]
  have "(2::int) ^ nat (bitlen n - 1) \<le> n" and "n < (2::int) ^ nat (bitlen n)"
    by simp_all
  then have "(of_int ((2::int) ^ nat (bitlen n - 1)) :: rat) \<le> of_int n"
    and "(of_int n :: rat) < of_int ((2::int) ^ nat (bitlen n))"
    by (simp_all only: of_int_le_iff of_int_less_iff)
  then show "(2::rat) powi (bitlen n - 1) \<le> of_int n" and "of_int n < (2::rat) powi bitlen n"
    using k by (simp_all add: powi_nat)
qed

text \<open>\<open>exponent\<close> is the binary exponent.\<close>

lemma exponent_bounds:
  assumes "x \<noteq> 0"
  shows "2 powi exponent x \<le> \<bar>x\<bar>" and "\<bar>x\<bar> < 2 powi (exponent x + 1)"
proof -
  obtain p q where pq: "quotient_of x = (p, q)" by force
  have q: "0 < q" using quotient_of_denom_pos [OF pq] .
  have x: "x = of_int p / of_int q" using quotient_of_div [OF pq] .
  have p: "0 < \<bar>p\<bar>" using assms x by auto
  define kp where "kp = bitlen \<bar>p\<bar>"
  define kq where "kq = bitlen q"
  note bp = bitlen_bounds_rat [OF p, folded kp_def]
  note bq = bitlen_bounds_rat [OF q, folded kq_def]
  have ax: "\<bar>x\<bar> = of_int \<bar>p\<bar> / of_int q"
    using q by (simp add: x)
  have qpos: "(0::rat) < of_int q" using q by simp
  have "\<bar>x\<bar> < 2 powi kp / 2 powi (kq - 1)"
    unfolding ax
    by (rule frac_less) (use bp bq p in simp_all)
  also have "\<dots> = 2 powi (kp - kq + 1)"
    by (simp add: power_int_diff [symmetric] algebra_simps)
  finally have up: "\<bar>x\<bar> < 2 powi (kp - kq + 1)" .
  have "2 powi (kp - 1) / 2 powi kq < \<bar>x\<bar>"
    unfolding ax
    by (rule frac_less2) (use bp bq p qpos in simp_all)
  also have "2 powi (kp - 1) / 2 powi kq = (2::rat) powi (kp - kq - 1)"
    by (simp add: power_int_diff [symmetric] algebra_simps)
  finally have low: "2 powi (kp - kq - 1) < \<bar>x\<bar>" .
  have e: "exponent x = (if 2 powi (kp - kq) \<le> \<bar>x\<bar> then kp - kq else kp - kq - 1)"
    by (simp add: exponent_def pq kp_def kq_def Let_def)
  show "2 powi exponent x \<le> \<bar>x\<bar>"
    using low by (simp add: e)
  show "\<bar>x\<bar> < 2 powi (exponent x + 1)"
    using up by (auto simp: e not_le)
qed

lemma round_half_even_of_int: "round_half_even (of_int m) = m"
  by (simp add: round_half_even_def)

lemma round_half_even_nonneg: "0 \<le> x \<Longrightarrow> 0 \<le> round_half_even x"
  by (auto simp: round_half_even_def Let_def)

lemma round_half_even_error: "\<bar>of_int (round_half_even x) - x\<bar> \<le> 1 / 2"
proof -
  have "of_int \<lfloor>x\<rfloor> \<le> x" and "x < of_int \<lfloor>x\<rfloor> + 1"
    by linarith+
  then show ?thesis
    by (auto simp: round_half_even_def Let_def abs_le_iff)
qed

text \<open>Rounding keeps the sign.\<close>

lemma round_double_sgn: "\<exists>c\<ge>0. round_double x = sgn x * c"
proof (cases "x = 0")
  case True
  then show ?thesis by (auto simp: round_double_def)
next
  case False
  define q where "q = max (exponent x) (- 1022) - 52"
  have "0 \<le> \<bar>x\<bar> / 2 powi q" by simp
  then have "0 \<le> of_int (round_half_even (\<bar>x\<bar> / 2 powi q)) * (2::rat) powi q"
    by (intro mult_nonneg_nonneg) (simp_all add: round_half_even_nonneg)
  moreover have "round_double x
      = sgn x * (of_int (round_half_even (\<bar>x\<bar> / 2 powi q)) * 2 powi q)"
    using False by (simp add: round_double_def Let_def q_def)
  ultimately show ?thesis by blast
qed

lemma round_double_nonneg: "0 \<le> x \<Longrightarrow> 0 \<le> round_double x"
  using round_double_sgn [of x] by (auto simp: sgn_if split: if_splits)

lemma round_double_nonpos: "x \<le> 0 \<Longrightarrow> round_double x \<le> 0"
  using round_double_sgn [of x] by (auto simp: sgn_if split: if_splits)

text \<open>The rounding error is at most half the spacing of the doubles at \<open>x\<close>.\<close>

lemma round_double_error:
  "\<bar>round_double x - x\<bar> \<le> 2 powi (max (exponent x) (- 1022) - 53)"
proof (cases "x = 0")
  case True
  then show ?thesis by (simp add: round_double_def)
next
  case False
  define q where "q = max (exponent x) (- 1022) - 52"
  define s where "s = (2::rat) powi q"
  define y where "y = \<bar>x\<bar> / s"
  have s: "0 < s" by (simp add: s_def)
  have x: "x = sgn x * y * s"
    using s by (simp add: y_def sgn_if)
  have r: "round_double x = sgn x * of_int (round_half_even y) * s"
    using False by (simp add: round_double_def Let_def q_def s_def y_def)
  have "round_double x - x = sgn x * (of_int (round_half_even y) - y) * s"
    by (subst (2) x) (simp add: r algebra_simps)
  then have "\<bar>round_double x - x\<bar> = \<bar>of_int (round_half_even y) - y\<bar> * s"
    using False s by (simp add: abs_mult abs_sgn_eq)
  also have "\<dots> \<le> 1 / 2 * s"
    using s round_half_even_error [of y] by (intro mult_right_mono) simp_all
  also have "1 / 2 * s = 2 powi (q - 1)"
    by (simp add: s_def power_int_diff)
  finally show ?thesis
    by (simp add: q_def)
qed

lemma round_double_relative_error:
  assumes "2 powi (- 1022) \<le> \<bar>x\<bar>"
  shows "\<bar>round_double x - x\<bar> \<le> \<bar>x\<bar> / 2 ^ 53"
proof -
  have x: "x \<noteq> 0" using assms by auto
  have "(2::rat) powi (- 1022) < 2 powi (exponent x + 1)"
    using assms exponent_bounds(2) [OF x] by linarith
  then have "- 1022 < exponent x + 1"
    by (rule powi_less_cancel)
  then have e: "max (exponent x) (- 1022) = exponent x" by simp
  have "\<bar>round_double x - x\<bar> \<le> 2 powi (exponent x - 53)"
    using round_double_error [of x] by (simp add: e)
  also have "\<dots> = 2 powi exponent x / 2 ^ 53"
    by (simp add: power_int_diff)
  also have "\<dots> \<le> \<bar>x\<bar> / 2 ^ 53"
    using exponent_bounds(1) [OF x] by (simp add: divide_right_mono)
  finally show ?thesis .
qed

text \<open>A double is rounded to itself.\<close>

lemma round_double_exact:
  assumes x: "x = of_int m * 2 powi k" and m: "\<bar>m\<bar> < 2 ^ 53" and k: "- 1074 \<le> k"
  shows "round_double x = x"
proof (cases "x = 0")
  case True
  then show ?thesis by (simp add: round_double_def)
next
  case False
  define q where "q = max (exponent x) (- 1022) - 52"
  have "2 powi exponent x \<le> \<bar>x\<bar>"
    by (rule exponent_bounds(1) [OF False])
  also have "\<bar>x\<bar> = of_int \<bar>m\<bar> * 2 powi k"
    by (simp add: x abs_mult)
  also have "\<dots> < 2 ^ 53 * 2 powi k"
  proof -
    have "(of_int \<bar>m\<bar> :: rat) < of_int (2 ^ 53)"
      using m by (simp only: of_int_less_iff)
    then show ?thesis by simp
  qed
  also have "\<dots> = 2 powi (53 + k)"
    by (simp add: power_int_add)
  finally have "exponent x < 53 + k"
    by (rule powi_less_cancel)
  with k have qk: "q \<le> k" by (simp add: q_def)
  have "\<bar>x\<bar> / 2 powi q = of_int \<bar>m\<bar> * 2 powi (k - q)"
    by (simp add: x abs_mult power_int_diff)
  also have "\<dots> = of_int (\<bar>m\<bar> * 2 ^ nat (k - q))"
    using qk by (simp add: powi_nat)
  finally have y: "\<bar>x\<bar> / 2 powi q = of_int (\<bar>m\<bar> * 2 ^ nat (k - q))" .
  have "round_double x = sgn x * (\<bar>x\<bar> / 2 powi q) * 2 powi q"
    using False
    by (simp add: round_double_def Let_def q_def [symmetric] y round_half_even_of_int
        del: of_int_mult of_int_power)
  also have "\<dots> = x"
    by (simp add: sgn_if)
  finally show ?thesis .
qed

section \<open>Properties of the overlap computation\<close>

lemma overlap_nonneg: "0 \<le> overlap s e t"
  by (simp add: overlap_def)

lemma overlap_nonpos_difference:
  "min e (turn_end t) \<le> max s (turn_start t) \<Longrightarrow> overlap s e t = 0"
  using round_double_nonpos [of "min e (turn_end t) - max s (turn_start t)"]
  by (simp add: overlap_def float_sub_def)

lemma overlap_zero_length: "overlap s s t = 0"
  by (rule overlap_nonpos_difference) (simp add: min_le_iff_disj le_max_iff_disj)

lemma overlap_disjoint: "turn_end t \<le> s \<or> e \<le> turn_start t \<Longrightarrow> overlap s e t = 0"
  by (rule overlap_nonpos_difference) (auto simp: min_le_iff_disj le_max_iff_disj)

lemma overlap_round_double:
  "overlap s e t = round_double (interval_length (max s (turn_start t)) (min e (turn_end t)))"
proof -
  define lo where "lo = max s (turn_start t)"
  define hi where "hi = min e (turn_end t)"
  have ov: "overlap s e t = max 0 (round_double (hi - lo))"
    by (simp add: overlap_def float_sub_def lo_def hi_def)
  have "max 0 (round_double (hi - lo)) = round_double (interval_length lo hi)"
  proof (cases "lo \<le> hi")
    case True
    then have "0 \<le> round_double (hi - lo)"
      by (intro round_double_nonneg) simp
    with True show ?thesis
      by (simp add: interval_length_def)
  next
    case False
    then have "round_double (hi - lo) \<le> 0"
      by (intro round_double_nonpos) simp
    moreover have "round_double 0 = 0"
      by (simp add: round_double_def)
    ultimately show ?thesis
      using False by (simp add: interval_length_def)
  qed
  with ov show ?thesis
    by (simp add: lo_def hi_def)
qed

text \<open>
  Claim C3, as amended. For a segment interval from \<open>s1\<close> to \<open>e1\<close> and a turn
  interval from \<open>s2\<close> to \<open>e2\<close>, the overlap the loop computes is
  \<open>max 0\<close> of the double-precision difference of \<open>min e1 e2\<close> and \<open>max s1 s2\<close>, and
  it is never negative. The intersection of the two closed intervals is the closed
  interval from \<open>max s1 s2\<close> to \<open>min e1 e2\<close>, and the overlap is the length of that
  interval rounded to the nearest double: it differs from the length by at most half the
  spacing of the doubles at the length, and it is the length itself whenever the length
  is a double. This holds for all four endpoints, so in particular when \<open>s1 \<le> e1\<close>
  and \<open>s2 \<le> e2\<close>.
\<close>

theorem overlap_is_rounded_intersection_length:
  "overlap s1 e1 \<lparr>turn_start = s2, turn_end = e2\<rparr>
     = max 0 (float_sub (min e1 e2) (max s1 s2))
   \<and> 0 \<le> overlap s1 e1 \<lparr>turn_start = s2, turn_end = e2\<rparr>
   \<and> {s1..e1} \<inter> {s2..e2} = {max s1 s2..min e1 e2}
   \<and> overlap s1 e1 \<lparr>turn_start = s2, turn_end = e2\<rparr>
       = round_double (interval_length (max s1 s2) (min e1 e2))
   \<and> \<bar>overlap s1 e1 \<lparr>turn_start = s2, turn_end = e2\<rparr>
        - interval_length (max s1 s2) (min e1 e2)\<bar>
       \<le> 2 powi (max (exponent (interval_length (max s1 s2) (min e1 e2))) (- 1022) - 53)
   \<and> (interval_length (max s1 s2) (min e1 e2) = of_int m * 2 powi k
        \<and> \<bar>m\<bar> < 2 ^ 53 \<and> - 1074 \<le> k \<longrightarrow>
      overlap s1 e1 \<lparr>turn_start = s2, turn_end = e2\<rparr>
        = interval_length (max s1 s2) (min e1 e2))"
proof -
  let ?t = "\<lparr>turn_start = s2, turn_end = e2\<rparr>"
  let ?len = "interval_length (max s1 s2) (min e1 e2)"
  have r: "overlap s1 e1 ?t = round_double ?len"
    using overlap_round_double [of s1 e1 ?t] by simp
  have "overlap s1 e1 ?t = max 0 (float_sub (min e1 e2) (max s1 s2))"
    by (simp add: overlap_def)
  moreover have "0 \<le> overlap s1 e1 ?t"
    by (rule overlap_nonneg)
  moreover have "{s1..e1} \<inter> {s2..e2} = {max s1 s2..min e1 e2}"
    by simp
  moreover have "\<bar>overlap s1 e1 ?t - ?len\<bar> \<le> 2 powi (max (exponent ?len) (- 1022) - 53)"
    unfolding r by (rule round_double_error)
  moreover have "overlap s1 e1 ?t = ?len"
    if "?len = of_int m * 2 powi k \<and> \<bar>m\<bar> < 2 ^ 53 \<and> - 1074 \<le> k"
    unfolding r using that by (intro round_double_exact [of _ m k]) simp_all
  ultimately show ?thesis
    using r by blast
qed

text \<open>
  The claim as first stated makes the overlap the length of the intersection. For the
  segment from 0.0 to 2.0 and the turn from 0.1 to 0.5 (0.1 is the double
  \<open>3602879701896397 / 2 ^ 55\<close>) the loop computes the double 0.4, which is
  \<open>3602879701896397 / 2 ^ 53\<close>, while the length of the intersection is
  \<open>14411518807585587 / 2 ^ 55\<close>, smaller by \<open>1 / 2 ^ 55\<close>.
\<close>

theorem overlap_rounding_counterexample:
  "overlap 0 2 \<lparr>turn_start = 3602879701896397 / 36028797018963968, turn_end = 1 / 2\<rparr>
     = 3602879701896397 / 9007199254740992 \<and>
   interval_length (max 0 (3602879701896397 / 36028797018963968)) (min 2 (1 / 2))
     = 14411518807585587 / 36028797018963968 \<and>
   overlap 0 2 \<lparr>turn_start = 3602879701896397 / 36028797018963968, turn_end = 1 / 2\<rparr>
     \<noteq> interval_length (max 0 (3602879701896397 / 36028797018963968)) (min 2 (1 / 2))"
  by code_simp

text \<open>A run where the length is a double: the segment from 0.0 to 2.0 and the turn from
  0.6 to 1.0 (0.6 is the double \<open>5404319552844595 / 2 ^ 53\<close>); the overlap is the
  length, the double 0.4.\<close>

theorem overlap_is_rounded_intersection_length_witness:
  "interval_length (max 0 (5404319552844595 / 9007199254740992)) (min 2 1)
     = of_int 3602879701896397 * 2 powi (- 53) \<and>
   \<bar>3602879701896397 :: int\<bar> < 2 ^ 53 \<and> (- 1074 :: int) \<le> - 53 \<and>
   overlap 0 2 \<lparr>turn_start = 5404319552844595 / 9007199254740992, turn_end = 1\<rparr>
     = interval_length (max 0 (5404319552844595 / 9007199254740992)) (min 2 1)"
  (is "?len = ?x \<and> ?m \<and> ?k \<and> ?ov = ?len")
proof -
  have len: "?len = ?x" by code_simp
  have m: ?m by simp
  have k: ?k by simp
  have "?ov = ?len"
    by (rule overlap_is_rounded_intersection_length [THEN conjunct2, THEN conjunct2,
          THEN conjunct2, THEN conjunct2, THEN conjunct2, THEN mp,
          OF conjI [OF len conjI [OF m k]]])
  with len m k show ?thesis by (intro conjI)
qed

text \<open>
  Claim C4. The overlap is symmetric: exchanging the segment interval and the turn
  interval does not change it.
\<close>

theorem overlap_symmetric:
  "overlap s1 e1 \<lparr>turn_start = s2, turn_end = e2\<rparr>
   = overlap s2 e2 \<lparr>turn_start = s1, turn_end = e1\<rparr>"
  by (simp add: overlap_def max.commute min.commute)

section \<open>Properties of the inner loop\<close>

lemma turn_loop_append:
  "turn_loop s e (xs @ ys) st = turn_loop s e ys (turn_loop s e xs st)"
  by (induction xs arbitrary: st) simp_all

lemma f_content_turn_body: "f_content (turn_body s e x st) = f_content st"
  by (cases x) simp

lemma f_content_turn_loop: "f_content (turn_loop s e xs st) = f_content st"
  by (induction xs arbitrary: st) (simp_all add: f_content_turn_body)

text \<open>Turns that do not exceed the running maximum leave the state as it is.\<close>

lemma turn_loop_unchanged:
  "\<forall>x\<in>set xs. overlap s e (fst x) \<le> max_overlap st \<Longrightarrow> turn_loop s e xs st = st"
  by (induction xs arbitrary: st) auto

text \<open>The loop invariant: the running maximum bounds every overlap seen, and either
  nothing was assigned or the maximum and the speaker come from one turn seen, whose
  overlap exceeds the initial maximum.\<close>

lemma turn_loop_invariant:
  "(\<forall>x\<in>set xs. overlap s e (fst x) \<le> max_overlap (turn_loop s e xs st)) \<and>
   (turn_loop s e xs st = st \<or>
     (\<exists>x\<in>set xs. max_overlap st < overlap s e (fst x) \<and>
        max_overlap (turn_loop s e xs st) = overlap s e (fst x) \<and>
        current_speaker (turn_loop s e xs st) = Some (snd (snd x))))"
proof (induction xs rule: rev_induct)
  case Nil
  show ?case by simp
next
  case (snoc x xs)
  obtain t trk spk where x: "x = (t, trk, spk)" by (cases x)
  let ?st = "turn_loop s e xs st"
  show ?case
  proof (cases "max_overlap ?st < overlap s e t")
    case True
    then have "max_overlap st < overlap s e t"
      using snoc.IH by force
    with True snoc.IH show ?thesis
      by (force simp: turn_loop_append x)
  next
    case False
    with snoc.IH show ?thesis
      by (auto simp: turn_loop_append x)
  qed
qed

text \<open>The loop reads only \<^verbatim>\<open>max_overlap\<close> and \<^verbatim>\<open>current_speaker\<close> of its state.\<close>

lemma turn_loop_depends:
  "max_overlap st = max_overlap st' \<Longrightarrow> current_speaker st = current_speaker st' \<Longrightarrow>
   max_overlap (turn_loop s e xs st) = max_overlap (turn_loop s e xs st') \<and>
   current_speaker (turn_loop s e xs st) = current_speaker (turn_loop s e xs st')"
proof (induction xs arbitrary: st st')
  case Nil
  then show ?case by simp
next
  case (Cons x xs)
  obtain t trk spk where x: "x = (t, trk, spk)" by (cases x)
  show ?case
    unfolding turn_loop.simps
    by (rule Cons.IH) (use Cons.prems in \<open>auto simp: x\<close>)
qed

lemma current_speaker_segment_body:
  "current_speaker (segment_body d seg st) =
   current_speaker (turn_loop (segment_start seg) (segment_end seg) d
     (st\<lparr>max_overlap := 0, current_speaker := None\<rparr>))"
  by (simp add: segment_body_def Let_def)

lemma f_content_segment_body:
  "f_content (segment_body d seg st) =
   f_content st @ line (segment_start seg) (segment_end seg)
     (current_speaker (segment_body d seg st)) (segment_text seg)"
  by (simp add: segment_body_def Let_def f_content_turn_loop)

text \<open>
  Claim C1, as amended. For every transcript segment and every list of diarization
  turns of which at least one has a strictly positive overlap with the segment, the
  iteration for the segment leaves in \<^verbatim>\<open>current_speaker\<close> the speaker label of a turn
  of the list whose overlap with the segment is maximal among all turns of the list; so
  every such segment receives a speaker label. The overlap is the one the loop computes,
  that is the time-overlap rounded to the nearest double. The starting state \<open>st\<close> is
  arbitrary.
\<close>

theorem speaker_of_maximal_overlap:
  assumes "\<exists>(t, trk, spk)\<in>set d. 0 < overlap (segment_start seg) (segment_end seg) t"
  shows "\<exists>(t, trk, spk)\<in>set d.
           current_speaker (segment_body d seg st) = Some spk \<and>
           (\<forall>(t', trk', spk')\<in>set d.
              overlap (segment_start seg) (segment_end seg) t'
                \<le> overlap (segment_start seg) (segment_end seg) t)"
proof -
  let ?s = "segment_start seg" and ?e = "segment_end seg"
  let ?st0 = "st\<lparr>max_overlap := 0, current_speaker := None\<rparr>"
  let ?st' = "turn_loop ?s ?e d ?st0"
  have bound: "\<forall>x\<in>set d. overlap ?s ?e (fst x) \<le> max_overlap ?st'"
    using turn_loop_invariant by blast
  from assms obtain y where y: "y \<in> set d" "0 < overlap ?s ?e (fst y)"
    by auto
  with bound have "0 < max_overlap ?st'" by fastforce
  then have "?st' \<noteq> ?st0" by auto
  then obtain x where x: "x \<in> set d" "max_overlap ?st' = overlap ?s ?e (fst x)"
      "current_speaker ?st' = Some (snd (snd x))"
    using turn_loop_invariant [of d ?s ?e ?st0] by blast
  with bound show ?thesis
    by (auto simp: current_speaker_segment_body intro!: bexI [of _ x])
qed

text \<open>
  The claim as first stated promises a label for every segment, from a turn of maximal
  time-overlap. With one turn from 2 to 3 and a segment from 0 to 1 the turn's overlap,
  0, is maximal among all turns, yet no label is assigned. With the segment from 0.0 to
  2.0 and the turns from 0.1 to 0.5 and from 0.6 to 1.0 (0.1 and 0.6 are the doubles
  \<open>3602879701896397 / 2 ^ 55\<close> and \<open>5404319552844595 / 2 ^ 53\<close>) both computed
  overlaps are the double 0.4, the first turn's speaker is kept, and the time-overlap
  of the first turn is smaller than that of the second.
\<close>

theorem speaker_of_maximal_overlap_counterexample:
  "current_speaker
     (segment_body [(\<lparr>turn_start = 2, turn_end = 3\<rparr>, ''A'', ''SPEAKER_00'')]
        \<lparr>segment_start = 0, segment_end = 1, segment_text = ''hi''\<rparr>
        \<lparr>max_overlap = 0, current_speaker = None, f_content = ''''\<rparr>) = None \<and>
   current_speaker
     (segment_body
        [(\<lparr>turn_start = 3602879701896397 / 36028797018963968, turn_end = 1 / 2\<rparr>,
          ''A'', ''SPEAKER_00''),
         (\<lparr>turn_start = 5404319552844595 / 9007199254740992, turn_end = 1\<rparr>,
          ''B'', ''SPEAKER_01'')]
        \<lparr>segment_start = 0, segment_end = 2, segment_text = ''hi''\<rparr>
        \<lparr>max_overlap = 0, current_speaker = None, f_content = ''''\<rparr>)
     = Some ''SPEAKER_00'' \<and>
   interval_length (max 0 (3602879701896397 / 36028797018963968)) (min 2 (1 / 2))
     < interval_length (max 0 (5404319552844595 / 9007199254740992)) (min 2 1)"
  by code_simp

text \<open>A run with a positive overlap: the overlaps with the segment from 1 to 4 are 1 and
  2. The state before holds values left by an earlier iteration.\<close>

theorem speaker_of_maximal_overlap_witness:
  "(\<exists>(t, trk, spk)\<in>set [(\<lparr>turn_start = 0, turn_end = 2\<rparr>, ''A'', ''SPEAKER_00''),
                          (\<lparr>turn_start = 2, turn_end = 5\<rparr>, ''B'', ''SPEAKER_01'')].
      0 < overlap (segment_start \<lparr>segment_start = 1, segment_end = 4, segment_text = ''hi''\<rparr>)
            (segment_end \<lparr>segment_start = 1, segment_end = 4, segment_text = ''hi''\<rparr>) t) \<and>
   (\<exists>(t, trk, spk)\<in>set [(\<lparr>turn_start = 0, turn_end = 2\<rparr>, ''A'', ''SPEAKER_00''),
                          (\<lparr>turn_start = 2, turn_end = 5\<rparr>, ''B'', ''SPEAKER_01'')].
      current_speaker
        (segment_body [(\<lparr>turn_start = 0, turn_end = 2\<rparr>, ''A'', ''SPEAKER_00''),
                       (\<lparr>turn_start = 2, turn_end = 5\<rparr>, ''B'', ''SPEAKER_01'')]
           \<lparr>segment_start = 1, segment_end = 4, segment_text = ''hi''\<rparr>
           \<lparr>max_overlap = 7, current_speaker = Some ''SPEAKER_09'', f_content = ''''\<rparr>)
        = Some spk \<and>
      (\<forall>(t', trk', spk')\<in>set [(\<lparr>turn_start = 0, turn_end = 2\<rparr>, ''A'', ''SPEAKER_00''),
                          (\<lparr>turn_start = 2, turn_end = 5\<rparr>, ''B'', ''SPEAKER_01'')].
         overlap (segment_start \<lparr>segment_start = 1, segment_end = 4, segment_text = ''hi''\<rparr>)
            (segment_end \<lparr>segment_start = 1, segment_end = 4, segment_text = ''hi''\<rparr>) t'
         \<le> overlap (segment_start \<lparr>segment_start = 1, segment_end = 4, segment_text = ''hi''\<rparr>)
            (segment_end \<lparr>segment_start = 1, segment_end = 4, segment_text = ''hi''\<rparr>) t))"
  (is "?H \<and> ?C")
proof
  show h: ?H by code_simp
  show ?C by (rule speaker_of_maximal_overlap [OF h])
qed

text \<open>
  Claim C8. Ties are broken in favour of the first turn: if the turn at position \<open>i\<close>
  has a strictly positive overlap with the segment, no turn of the list has a larger
  one and every turn before position \<open>i\<close> has a strictly smaller one, then the speaker
  of the turn at position \<open>i\<close> is assigned. The overlaps are the ones the loop
  computes and compares.
\<close>

theorem first_maximal_turn_wins:
  assumes i: "i < length d" and di: "d ! i = (t, trk, spk)"
    and pos: "0 < overlap (segment_start seg) (segment_end seg) t"
    and maxi: "\<forall>j<length d. overlap (segment_start seg) (segment_end seg) (fst (d ! j))
                 \<le> overlap (segment_start seg) (segment_end seg) t"
    and first: "\<forall>j<i. overlap (segment_start seg) (segment_end seg) (fst (d ! j))
                 < overlap (segment_start seg) (segment_end seg) t"
  shows "current_speaker (segment_body d seg st) = Some spk"
proof -
  let ?s = "segment_start seg" and ?e = "segment_end seg"
  let ?st0 = "st\<lparr>max_overlap := 0, current_speaker := None\<rparr>"
  let ?st1 = "turn_loop ?s ?e (take i d) ?st0"
  let ?st2 = "turn_body ?s ?e (t, trk, spk) ?st1"
  have d: "d = take i d @ (t, trk, spk) # drop (Suc i) d"
    using i di id_take_nth_drop by fastforce
  have before: "\<forall>x\<in>set (take i d). overlap ?s ?e (fst x) < overlap ?s ?e t"
  proof
    fix x assume "x \<in> set (take i d)"
    then obtain j where "j < length (take i d)" "take i d ! j = x"
      by (auto simp: in_set_conv_nth)
    then have "j < i" "d ! j = x" by simp_all
    with first show "overlap ?s ?e (fst x) < overlap ?s ?e t" by blast
  qed
  have after: "\<forall>x\<in>set (drop (Suc i) d). overlap ?s ?e (fst x) \<le> overlap ?s ?e t"
  proof
    fix x assume "x \<in> set (drop (Suc i) d)"
    then obtain j where "j < length (drop (Suc i) d)" "drop (Suc i) d ! j = x"
      by (auto simp: in_set_conv_nth)
    then have "Suc i + j < length d" "d ! (Suc i + j) = x" by simp_all
    with maxi show "overlap ?s ?e (fst x) \<le> overlap ?s ?e t" by blast
  qed
  have "max_overlap ?st1 < overlap ?s ?e t"
    using turn_loop_invariant [of "take i d" ?s ?e ?st0] pos before by auto
  then have st2: "max_overlap ?st2 = overlap ?s ?e t" "current_speaker ?st2 = Some spk"
    by simp_all
  have "turn_loop ?s ?e d ?st0 = turn_loop ?s ?e (drop (Suc i) d) ?st2"
    by (subst d) (simp add: turn_loop_append)
  also have "\<dots> = ?st2"
    using after st2(1) by (intro turn_loop_unchanged) simp
  finally show ?thesis
    by (simp only: current_speaker_segment_body st2(2))
qed


text \<open>A run of the tie, on the segment from 0.0 to 2.0 and the turns from 1.5 to 1.75,
  from 0.1 to 0.5 and from 0.6 to 1.0: the overlaps the loop computes are 0.25, 0.4 and
  0.4, and the second turn's speaker is assigned, not the third's.\<close>

theorem first_maximal_turn_wins_witness:
  "(1::nat) < length
     [(\<lparr>turn_start = 3 / 2, turn_end = 7 / 4\<rparr>, ''A'', ''SPEAKER_00''),
      (\<lparr>turn_start = 3602879701896397 / 36028797018963968, turn_end = 1 / 2\<rparr>,
       ''B'', ''SPEAKER_01''),
      (\<lparr>turn_start = 5404319552844595 / 9007199254740992, turn_end = 1\<rparr>,
       ''C'', ''SPEAKER_02'')] \<and>
   [(\<lparr>turn_start = 3 / 2, turn_end = 7 / 4\<rparr>, ''A'', ''SPEAKER_00''),
    (\<lparr>turn_start = 3602879701896397 / 36028797018963968, turn_end = 1 / 2\<rparr>,
     ''B'', ''SPEAKER_01''),
    (\<lparr>turn_start = 5404319552844595 / 9007199254740992, turn_end = 1\<rparr>,
     ''C'', ''SPEAKER_02'')] ! 1
     = (\<lparr>turn_start = 3602879701896397 / 36028797018963968, turn_end = 1 / 2\<rparr>,
        ''B'', ''SPEAKER_01'') \<and>
   0 < overlap (segment_start \<lparr>segment_start = 0, segment_end = 2, segment_text = ''hi''\<rparr>)
         (segment_end \<lparr>segment_start = 0, segment_end = 2, segment_text = ''hi''\<rparr>)
         \<lparr>turn_start = 3602879701896397 / 36028797018963968, turn_end = 1 / 2\<rparr> \<and>
   current_speaker
     (segment_body
        [(\<lparr>turn_start = 3 / 2, turn_end = 7 / 4\<rparr>, ''A'', ''SPEAKER_00''),
         (\<lparr>turn_start = 3602879701896397 / 36028797018963968, turn_end = 1 / 2\<rparr>,
          ''B'', ''SPEAKER_01''),
         (\<lparr>turn_start = 5404319552844595 / 9007199254740992, turn_end = 1\<rparr>,
          ''C'', ''SPEAKER_02'')]
        \<lparr>segment_start = 0, segment_end = 2, segment_text = ''hi''\<rparr>
        \<lparr>max_overlap = 7, current_speaker = Some ''SPEAKER_09'', f_content = ''''\<rparr>)
     = Some ''SPEAKER_01''"
  (is "?i < length ?d \<and> ?d ! ?i = (?t, ?trk, ?spk) \<and>
       0 < overlap (segment_start ?seg) (segment_end ?seg) ?t \<and>
       current_speaker (segment_body ?d ?seg ?st) = Some ?spk")
proof -
  have ov0: "overlap 0 2 \<lparr>turn_start = 3 / 2, turn_end = 7 / 4\<rparr> = 1 / 4"
    by code_simp
  have ov1: "overlap 0 2
      \<lparr>turn_start = 3602879701896397 / 36028797018963968, turn_end = 1 / 2\<rparr>
      = 3602879701896397 / 9007199254740992"
    by code_simp
  have ov2: "overlap 0 2 \<lparr>turn_start = 5404319552844595 / 9007199254740992, turn_end = 1\<rparr>
      = 3602879701896397 / 9007199254740992"
    by code_simp
  have i: "?i < length ?d" by simp
  have di: "?d ! ?i = (?t, ?trk, ?spk)" by simp
  have pos: "0 < overlap (segment_start ?seg) (segment_end ?seg) ?t"
    by (simp add: ov1)
  have maxi: "\<forall>j<length ?d. overlap (segment_start ?seg) (segment_end ?seg) (fst (?d ! j))
                 \<le> overlap (segment_start ?seg) (segment_end ?seg) ?t"
    by (simp add: ov0 ov1 ov2 nth_Cons' less_Suc_eq numeral_3_eq_3)
  have first: "\<forall>j<?i. overlap (segment_start ?seg) (segment_end ?seg) (fst (?d ! j))
                 < overlap (segment_start ?seg) (segment_end ?seg) ?t"
    by (simp add: ov0 ov1)
  have "current_speaker (segment_body ?d ?seg ?st) = Some ?spk"
    by (rule first_maximal_turn_wins [OF i di pos maxi first])
  with i di pos show ?thesis by (intro conjI)
qed

text \<open>
  Claim C9. If no turn has a strictly positive overlap with a segment, no speaker is
  selected: \<^verbatim>\<open>current_speaker\<close> is \<^verbatim>\<open>None\<close> after the inner loop and the line
  appended to the file has the text \<^verbatim>\<open>None\<close> as its speaker label. This covers an
  empty turn list, a segment of zero length, and turns that all end at or before the
  segment's start or begin at or after its end (so that they at most touch it at an
  endpoint).
\<close>

theorem no_positive_overlap_prints_None:
  assumes "d = [] \<or> segment_start seg = segment_end seg \<or>
     (\<forall>(t, trk, spk)\<in>set d.
        turn_end t \<le> segment_start seg \<or> segment_end seg \<le> turn_start t) \<or>
     (\<forall>(t, trk, spk)\<in>set d. \<not> 0 < overlap (segment_start seg) (segment_end seg) t)"
  shows "current_speaker (segment_body d seg st) = None \<and>
     f_content (segment_body d seg st) =
       f_content st @ ''['' @ format_1f (segment_start seg) @ ''s -> ''
         @ format_1f (segment_end seg) @ ''s] None: '' @ strip (segment_text seg)
         @ [CHR 0x0A]"
proof -
  let ?s = "segment_start seg" and ?e = "segment_end seg"
  let ?st0 = "st\<lparr>max_overlap := 0, current_speaker := None\<rparr>"
  have "\<forall>x\<in>set d. overlap ?s ?e (fst x) \<le> max_overlap ?st0"
    using assms overlap_zero_length overlap_disjoint by fastforce
  then have "turn_loop ?s ?e d ?st0 = ?st0"
    by (rule turn_loop_unchanged)
  then have none: "current_speaker (segment_body d seg st) = None"
    by (simp add: current_speaker_segment_body)
  show ?thesis
    by (simp add: none f_content_segment_body line_def line_text_def)
qed

text \<open>Two runs: a segment from 1 to 3 between a turn that ends at 1 and a turn that
  begins at 3, and a segment of zero length inside a turn. The state before holds a
  speaker left by an earlier iteration.\<close>

theorem no_positive_overlap_prints_None_witness:
  "(current_speaker
      (segment_body [(\<lparr>turn_start = 0, turn_end = 1\<rparr>, ''A'', ''SPEAKER_00''),
                     (\<lparr>turn_start = 3, turn_end = 4\<rparr>, ''B'', ''SPEAKER_01'')]
         \<lparr>segment_start = 1, segment_end = 3, segment_text = ''  hello ''\<rparr>
         \<lparr>max_overlap = 7, current_speaker = Some ''SPEAKER_09'', f_content = ''''\<rparr>)
      = None \<and>
    f_content
      (segment_body [(\<lparr>turn_start = 0, turn_end = 1\<rparr>, ''A'', ''SPEAKER_00''),
                     (\<lparr>turn_start = 3, turn_end = 4\<rparr>, ''B'', ''SPEAKER_01'')]
         \<lparr>segment_start = 1, segment_end = 3, segment_text = ''  hello ''\<rparr>
         \<lparr>max_overlap = 7, current_speaker = Some ''SPEAKER_09'', f_content = ''''\<rparr>)
      = ''[1.0s -> 3.0s] None: hello'' @ [CHR 0x0A]) \<and>
   (current_speaker
      (segment_body [(\<lparr>turn_start = 0, turn_end = 2\<rparr>, ''A'', ''SPEAKER_00'')]
         \<lparr>segment_start = 1, segment_end = 1, segment_text = ''x''\<rparr>
         \<lparr>max_overlap = 7, current_speaker = Some ''SPEAKER_09'', f_content = ''''\<rparr>)
      = None \<and>
    f_content
      (segment_body [(\<lparr>turn_start = 0, turn_end = 2\<rparr>, ''A'', ''SPEAKER_00'')]
         \<lparr>segment_start = 1, segment_end = 1, segment_text = ''x''\<rparr>
         \<lparr>max_overlap = 7, current_speaker = Some ''SPEAKER_09'', f_content = ''''\<rparr>)
      = ''[1.0s -> 1.0s] None: x'' @ [CHR 0x0A])"
  (is "(current_speaker (segment_body ?d1 ?seg1 ?st) = None \<and> _) \<and>
       (current_speaker (segment_body ?d2 ?seg2 ?st) = None \<and> _)")
proof -
  have fmt: "format_1f 1 = ''1.0''" "format_1f 3 = ''3.0''"
    by code_simp+
  have stripped: "strip ''  hello '' = ''hello''" "strip ''x'' = ''x''"
    by code_simp+
  have h1: "?d1 = [] \<or> segment_start ?seg1 = segment_end ?seg1 \<or>
     (\<forall>(t, trk, spk)\<in>set ?d1.
        turn_end t \<le> segment_start ?seg1 \<or> segment_end ?seg1 \<le> turn_start t) \<or>
     (\<forall>(t, trk, spk)\<in>set ?d1. \<not> 0 < overlap (segment_start ?seg1) (segment_end ?seg1) t)"
    by simp
  have h2: "?d2 = [] \<or> segment_start ?seg2 = segment_end ?seg2 \<or>
     (\<forall>(t, trk, spk)\<in>set ?d2.
        turn_end t \<le> segment_start ?seg2 \<or> segment_end ?seg2 \<le> turn_start t) \<or>
     (\<forall>(t, trk, spk)\<in>set ?d2. \<not> 0 < overlap (segment_start ?seg2) (segment_end ?seg2) t)"
    by simp
  show ?thesis
    using no_positive_overlap_prints_None [OF h1, of ?st]
      no_positive_overlap_prints_None [OF h2, of ?st]
    by (simp add: fmt stripped)
qed


section \<open>Properties of the outer loop\<close>

lemma segment_loop_append:
  "segment_loop d (xs @ ys) st = segment_loop d ys (segment_loop d xs st)"
  by (induction xs arbitrary: st) simp_all

text \<open>The speaker an iteration assigns does not depend on the state it starts from, and
  depends on the segment through its two times only.\<close>

lemma current_speaker_segment_body_times:
  "segment_start seg = segment_start seg' \<Longrightarrow> segment_end seg = segment_end seg' \<Longrightarrow>
   current_speaker (segment_body d seg st) = current_speaker (segment_body d seg' st')"
  unfolding current_speaker_segment_body
  by (simp add: turn_loop_depends [THEN conjunct2,
        of "st\<lparr>max_overlap := 0, current_speaker := None\<rparr>"
           "st'\<lparr>max_overlap := 0, current_speaker := None\<rparr>"])

lemma current_speaker_segment_body_any:
  "current_speaker (segment_body d seg st) = current_speaker (segment_body d seg st')"
  by (rule current_speaker_segment_body_times) simp_all

text \<open>The label an iteration assigns is the label of a turn of the list.\<close>

lemma current_speaker_label:
  assumes a: "current_speaker (segment_body d seg st) = Some spk"
  shows "\<exists>t trk. (t, trk, spk) \<in> set d"
proof -
  let ?st0 = "st\<lparr>max_overlap := 0, current_speaker := None\<rparr>"
  let ?st' = "turn_loop (segment_start seg) (segment_end seg) d ?st0"
  from a have "?st' \<noteq> ?st0"
    by (auto simp: current_speaker_segment_body)
  then obtain x where "x \<in> set d" "current_speaker ?st' = Some (snd (snd x))"
    using turn_loop_invariant [of d "segment_start seg" "segment_end seg" ?st0] by blast
  with a show ?thesis
    by (cases x) (auto simp: current_speaker_segment_body)
qed

text \<open>The file after the loop: what it held before, then one line per segment, in
  order. \<open>st0\<close> is any state.\<close>

lemma f_content_segment_loop:
  "f_content (segment_loop d segs st) =
   f_content st @ concat (map (\<lambda>seg. line (segment_start seg) (segment_end seg)
       (current_speaker (segment_body d seg st0)) (segment_text seg)) segs)"
proof (induction segs arbitrary: st)
  case Nil
  show ?case by simp
next
  case (Cons seg segs)
  have "current_speaker (segment_body d seg st) = current_speaker (segment_body d seg st0)"
    by (rule current_speaker_segment_body_any)
  then show ?case
    by (simp add: Cons.IH f_content_segment_body)
qed

lemma f_content_combine:
  "f_content (combine segs d st) =
   concat (map (\<lambda>seg. line (segment_start seg) (segment_end seg)
       (current_speaker (segment_body d seg st0)) (segment_text seg)) segs)"
  by (simp add: combine_def f_content_segment_loop [where ?st0.0 = st0])

lemma turn_loop_fold: "turn_loop s e d st = fold (turn_body s e) d st"
  by (induction d arbitrary: st) simp_all

lemma segment_loop_fold: "segment_loop d segs st = fold (segment_body d) segs st"
  by (induction segs arbitrary: st) simp_all

text \<open>
  Claim C5. The routine is deterministic and has no state of its own: two runs on equal
  segment lists and equal turn lists write the same file, whatever the notebook's
  variables and the file held before each run (\<open>st\<close> and \<open>st'\<close>).
\<close>

theorem combine_depends_on_inputs_only:
  "segs = segs' \<Longrightarrow> d = d' \<Longrightarrow>
   f_content (combine segs d st) = f_content (combine segs' d' st')"
  by (simp add: f_content_combine [where ?st0.0 = st'])

theorem combine_depends_on_inputs_only_witness:
  "f_content
     (combine [\<lparr>segment_start = 0, segment_end = 2, segment_text = '' Hello. ''\<rparr>]
        [(\<lparr>turn_start = 0, turn_end = 1\<rparr>, ''A'', ''SPEAKER_00'')]
        \<lparr>max_overlap = 0, current_speaker = None, f_content = ''''\<rparr>) =
   f_content
     (combine [\<lparr>segment_start = 0, segment_end = 2, segment_text = '' Hello. ''\<rparr>]
        [(\<lparr>turn_start = 0, turn_end = 1\<rparr>, ''A'', ''SPEAKER_00'')]
        \<lparr>max_overlap = 7, current_speaker = Some ''SPEAKER_09'', f_content = ''old''\<rparr>)"
  by (rule combine_depends_on_inputs_only [OF refl refl])

text \<open>
  Claim C6. The speaker assigned to the segment at position \<open>i\<close>, that is the value of
  \<^verbatim>\<open>current_speaker\<close> when the iterations for the segments up to position \<open>i\<close> have
  run, depends only on the start and end times of that segment and on the turn list:
  two runs on segment lists that agree in these two times at position \<open>i\<close> assign the
  same speaker there, whatever the other segments and the states before the runs are.
\<close>

theorem speaker_depends_on_own_segment_only:
  assumes "i < length segs" and "i < length segs'"
    and "segment_start (segs ! i) = segment_start (segs' ! i)"
    and "segment_end (segs ! i) = segment_end (segs' ! i)"
  shows "current_speaker (segment_loop d (take (Suc i) segs) st)
       = current_speaker (segment_loop d (take (Suc i) segs') st')"
  using assms
  by (simp add: take_Suc_conv_app_nth segment_loop_append current_speaker_segment_body_times)

theorem speaker_depends_on_own_segment_only_witness:
  "(1::nat) < length [\<lparr>segment_start = 0, segment_end = 2, segment_text = ''a''\<rparr>,
                     \<lparr>segment_start = 2, segment_end = 5, segment_text = ''b''\<rparr>] \<and>
   (1::nat) < length [\<lparr>segment_start = 1, segment_end = 2, segment_text = ''c''\<rparr>,
                     \<lparr>segment_start = 2, segment_end = 5, segment_text = ''d''\<rparr>] \<and>
   current_speaker
     (segment_loop [(\<lparr>turn_start = 0, turn_end = 3\<rparr>, ''A'', ''SPEAKER_00''),
                    (\<lparr>turn_start = 3, turn_end = 5\<rparr>, ''B'', ''SPEAKER_01'')]
        (take (Suc 1) [\<lparr>segment_start = 0, segment_end = 2, segment_text = ''a''\<rparr>,
                       \<lparr>segment_start = 2, segment_end = 5, segment_text = ''b''\<rparr>])
        \<lparr>max_overlap = 0, current_speaker = None, f_content = ''''\<rparr>) =
   current_speaker
     (segment_loop [(\<lparr>turn_start = 0, turn_end = 3\<rparr>, ''A'', ''SPEAKER_00''),
                    (\<lparr>turn_start = 3, turn_end = 5\<rparr>, ''B'', ''SPEAKER_01'')]
        (take (Suc 1) [\<lparr>segment_start = 1, segment_end = 2, segment_text = ''c''\<rparr>,
                       \<lparr>segment_start = 2, segment_end = 5, segment_text = ''d''\<rparr>])
        \<lparr>max_overlap = 7, current_speaker = Some ''SPEAKER_09'', f_content = ''old''\<rparr>)"
  (is "?i < length ?segs \<and> ?i < length ?segs' \<and>
       current_speaker (segment_loop ?d _ ?st) = current_speaker (segment_loop ?d _ ?st')")
proof -
  have i: "?i < length ?segs" and i': "?i < length ?segs'"
    by simp_all
  have s: "segment_start (?segs ! ?i) = segment_start (?segs' ! ?i)"
    and e: "segment_end (?segs ! ?i) = segment_end (?segs' ! ?i)"
    by simp_all
  have "current_speaker (segment_loop ?d (take (Suc ?i) ?segs) ?st)
      = current_speaker (segment_loop ?d (take (Suc ?i) ?segs') ?st')"
    by (rule speaker_depends_on_own_segment_only [OF i i' s e])
  with i i' show ?thesis by (intro conjI)
qed

text \<open>
  Claim C7. The routine is a single pass: a fold over the segment list whose body is a
  fold over the turn list, with no other recursion. \<open>fold\<close> is primitive recursion on
  a list, so the routine yields a final state for every pair of lists.
\<close>

theorem combine_is_nested_fold:
  "combine segs d st =
   fold (\<lambda>seg st.
      let st2 = fold (turn_body (segment_start seg) (segment_end seg)) d
                  (st\<lparr>max_overlap := 0, current_speaker := None\<rparr>)
      in st2\<lparr>f_content := f_content st2 @
           line (segment_start seg) (segment_end seg) (current_speaker st2)
             (segment_text seg)\<rparr>)
     segs (st\<lparr>f_content := ''''\<rparr>)"
proof -
  have "segment_body d = (\<lambda>seg st.
      let st2 = fold (turn_body (segment_start seg) (segment_end seg)) d
                  (st\<lparr>max_overlap := 0, current_speaker := None\<rparr>)
      in st2\<lparr>f_content := f_content st2 @
           line (segment_start seg) (segment_end seg) (current_speaker st2)
             (segment_text seg)\<rparr>)"
    by (intro ext) (simp add: segment_body_def turn_loop_fold)
  then show ?thesis
    by (simp add: combine_def segment_loop_fold)
qed


section \<open>The lines of the combined file\<close>

lemma decimal_digits: "set (decimal n) \<subseteq> set ''0123456789''"
proof (induction n rule: decimal.induct)
  case (1 n)
  have digit: "''0123456789'' ! k \<in> set ''0123456789''" if "k < 10" for k
    using that by (intro nth_mem) simp
  show ?case
  proof (cases "n < 10")
    case True
    then show ?thesis
      using digit [of n] by (subst decimal.simps) simp
  next
    case False
    have "n mod 10 < 10" by simp
    with False show ?thesis
      using 1 digit [of "n mod 10"] by (subst decimal.simps) simp
  qed
qed

text \<open>One decimal place: an optional sign, at least one digit, a point, one digit.\<close>

lemma format_1f_shape:
  "\<exists>ds c. format_1f x = (if x < 0 then ''-'' else '''') @ ds @ ''.'' @ [c] \<and>
     ds \<noteq> [] \<and> set ds \<subseteq> set ''0123456789'' \<and> c \<in> set ''0123456789''"
proof -
  define n where "n = nat (round_half_even (\<bar>x\<bar> * 10))"
  have "n mod 10 < 10" by simp
  then have one: "decimal (n mod 10) = [''0123456789'' ! (n mod 10)]"
    by (subst decimal.simps) simp
  have c: "''0123456789'' ! (n mod 10) \<in> set ''0123456789''"
    by (intro nth_mem) simp
  have ne: "decimal (n div 10) \<noteq> []"
    by (subst decimal.simps) simp
  have "format_1f x = (if x < 0 then ''-'' else '''') @ decimal (n div 10) @ ''.''
      @ [''0123456789'' ! (n mod 10)]"
    by (simp add: format_1f_def Let_def n_def [symmetric] one)
  with c ne decimal_digits [of "n div 10"] show ?thesis by blast
qed

lemma newline_notin_format_1f: "CHR 0x0A \<notin> set (format_1f x)"
proof -
  have "CHR 0x0A \<notin> set (decimal n)" for n
    using decimal_digits [of n] by auto
  then show ?thesis
    by (simp add: format_1f_def Let_def)
qed

text \<open>Stripping removes a run of whitespace at each end and nothing else; what is left
  neither begins nor ends with whitespace.\<close>

lemma strip_decomposition:
  "\<exists>l r. s = l @ strip s @ r \<and> list_all isspace l \<and> list_all isspace r \<and>
     (strip s \<noteq> [] \<longrightarrow> \<not> isspace (hd (strip s)) \<and> \<not> isspace (last (strip s)))"
proof -
  let ?l = "takeWhile isspace s" and ?u = "dropWhile isspace s"
  let ?r = "rev (takeWhile isspace (rev ?u))"
  have u: "?u = strip s @ ?r"
    by (simp add: strip_def rstrip_def lstrip_def flip: rev_append)
  have s: "s = ?l @ strip s @ ?r"
    using u takeWhile_dropWhile_id [of isspace s] by simp
  have l: "list_all isspace ?l" and r: "list_all isspace ?r"
    by (auto simp: list_all_iff dest: set_takeWhileD)
  have "\<not> isspace (hd (strip s)) \<and> \<not> isspace (last (strip s))" if ne: "strip s \<noteq> []"
  proof
    from ne u have "?u \<noteq> []" by (metis append_is_Nil_conv)
    then have "\<not> isspace (hd ?u)" by (rule hd_dropWhile)
    moreover have "hd ?u = hd (strip s)" using u ne by (metis hd_append2)
    ultimately show "\<not> isspace (hd (strip s))" by simp
    from ne have "dropWhile isspace (rev ?u) \<noteq> []"
      by (simp add: strip_def rstrip_def lstrip_def)
    then have "\<not> isspace (hd (dropWhile isspace (rev ?u)))" by (rule hd_dropWhile)
    then show "\<not> isspace (last (strip s))"
      using ne by (simp add: strip_def rstrip_def lstrip_def last_rev)
  qed
  with s l r show ?thesis by blast
qed

lemma lines_from_line:
  "CHR 0x0A \<notin> set s \<Longrightarrow>
   lines_from cur (s @ CHR 0x0A # rest) = (rev cur @ s) # lines_from [] rest"
  by (induction s arbitrary: cur) auto

lemma lines_concat:
  "\<forall>x\<in>set xs. CHR 0x0A \<notin> set (g x) \<Longrightarrow>
   lines (concat (map (\<lambda>x. g x @ [CHR 0x0A]) xs)) = map g xs"
  unfolding lines_def
  by (induction xs) (simp_all add: lines_from_line)

lemma newline_notin_line_text:
  assumes "CHR 0x0A \<notin> set (strip text)" and "CHR 0x0A \<notin> set (str_speaker speaker)"
  shows "CHR 0x0A \<notin> set (line_text s e speaker text)"
  using assms by (simp add: line_text_def newline_notin_format_1f)

text \<open>
  Claim C2, as amended. For every list of transcript segments, the combined output file
  is the concatenation, in the order of the segments, of one string per segment: the
  string for a segment is \<^verbatim>\<open>[<start>s -> <end>s] <speaker>: <text>\<close> followed by a
  newline, where start and end are the segment's start and end times rendered with one
  decimal place, speaker is the label the loop assigns to the segment (or \<^verbatim>\<open>None\<close>)
  and text is the segment's text with surrounding whitespace stripped. When no stripped
  text and no speaker label of the turn list contains a newline character, the file has
  exactly one line per segment, in the same order, and the i-th line is the string of
  the i-th segment. The state \<open>st'\<close> from which the label of a segment is computed is
  arbitrary.
\<close>

theorem combined_file_lines:
  "f_content (combine segs d st) =
      concat (map (\<lambda>seg. ''['' @ format_1f (segment_start seg) @ ''s -> ''
        @ format_1f (segment_end seg) @ ''s] ''
        @ str_speaker (current_speaker (segment_body d seg st')) @ '': ''
        @ strip (segment_text seg) @ [CHR 0x0A]) segs) \<and>
   ((\<forall>seg\<in>set segs. CHR 0x0A \<notin> set (strip (segment_text seg))) \<and>
    (\<forall>(t, trk, spk)\<in>set d. CHR 0x0A \<notin> set spk) \<longrightarrow>
    lines (f_content (combine segs d st)) =
      map (\<lambda>seg. ''['' @ format_1f (segment_start seg) @ ''s -> ''
        @ format_1f (segment_end seg) @ ''s] ''
        @ str_speaker (current_speaker (segment_body d seg st')) @ '': ''
        @ strip (segment_text seg)) segs)"
proof -
  let ?g = "\<lambda>seg. line_text (segment_start seg) (segment_end seg)
              (current_speaker (segment_body d seg st')) (segment_text seg)"
  have content: "f_content (combine segs d st) = concat (map (\<lambda>seg. ?g seg @ [CHR 0x0A]) segs)"
    by (simp add: f_content_combine [where ?st0.0 = st'] line_def)
  have one_line: "lines (concat (map (\<lambda>seg. ?g seg @ [CHR 0x0A]) segs)) = map ?g segs"
    if texts: "\<forall>seg\<in>set segs. CHR 0x0A \<notin> set (strip (segment_text seg))"
      and label: "\<forall>(t, trk, spk)\<in>set d. CHR 0x0A \<notin> set spk"
  proof -
    have speaker: "CHR 0x0A \<notin> set (str_speaker (current_speaker (segment_body d seg st')))"
      for seg
    proof (cases "current_speaker (segment_body d seg st')")
      case None
      then show ?thesis by simp
    next
      case (Some spk)
      then obtain t trk where "(t, trk, spk) \<in> set d"
        using current_speaker_label by blast
      with label Some show ?thesis by auto
    qed
    have "\<forall>seg\<in>set segs. CHR 0x0A \<notin> set (?g seg)"
      using texts speaker by (simp add: newline_notin_line_text)
    then show ?thesis
      by (rule lines_concat)
  qed
  from content one_line show ?thesis
    by (simp add: line_text_def)
qed

text \<open>
  The claim as first stated holds for every segment list. A segment whose text has a
  newline between two letters is written as it is, and the file then has two lines for
  the one segment.
\<close>

theorem newline_in_text_counterexample:
  "lines (f_content
     (combine [\<lparr>segment_start = 0, segment_end = 1,
                segment_text = [CHR ''a'', CHR 0x0A, CHR ''b'']\<rparr>] []
        \<lparr>max_overlap = 0, current_speaker = None, f_content = ''''\<rparr>))
   = [''[0.0s -> 1.0s] None: a'', ''b'']"
  by code_simp

text \<open>A run on two segments and two turns; 0.25 and 12.75 are rendered as 0.2 and 12.8,
  and the second segment, which no turn overlaps, is labelled \<^verbatim>\<open>None\<close>.\<close>

theorem combined_file_lines_witness:
  "lines (f_content
     (combine [\<lparr>segment_start = 1 / 4, segment_end = 51 / 4,
                segment_text = '' Hello there. ''\<rparr>,
               \<lparr>segment_start = 51 / 4, segment_end = 20, segment_text = '' Hi. ''\<rparr>]
        [(\<lparr>turn_start = 0, turn_end = 11\<rparr>, ''A'', ''SPEAKER_00''),
         (\<lparr>turn_start = 11, turn_end = 51 / 4\<rparr>, ''B'', ''SPEAKER_01'')]
        \<lparr>max_overlap = 7, current_speaker = Some ''SPEAKER_09'', f_content = ''old''\<rparr>))
   = [''[0.2s -> 12.8s] SPEAKER_00: Hello there.'', ''[12.8s -> 20.0s] None: Hi.'']"
  (is "lines (f_content (combine ?segs ?d ?st)) = ?out")
proof -
  have texts: "\<forall>seg\<in>set ?segs. CHR 0x0A \<notin> set (strip (segment_text seg))"
    by code_simp
  have label: "\<forall>(t, trk, spk)\<in>set ?d. CHR 0x0A \<notin> set spk"
    by simp
  have a: "lines (f_content (combine ?segs ?d ?st)) =
      map (\<lambda>seg. ''['' @ format_1f (segment_start seg) @ ''s -> ''
        @ format_1f (segment_end seg) @ ''s] ''
        @ str_speaker (current_speaker (segment_body ?d seg ?st)) @ '': ''
        @ strip (segment_text seg)) ?segs"
    by (rule combined_file_lines [THEN conjunct2, THEN mp, OF conjI [OF texts label]])
  have b: "map (\<lambda>seg. ''['' @ format_1f (segment_start seg) @ ''s -> ''
        @ format_1f (segment_end seg) @ ''s] ''
        @ str_speaker (current_speaker (segment_body ?d seg ?st)) @ '': ''
        @ strip (segment_text seg)) ?segs = ?out"
    by code_simp
  show ?thesis by (rule trans [OF a b])
qed

section \<open>The token check\<close>

text \<open>
  Claim C10. If \<^verbatim>\<open>HF_TOKEN\<close> is unset or empty in the environment that
  \<^verbatim>\<open>os.getenv\<close> reads, the configuration cell raises \<^verbatim>\<open>ValueError\<close> and no model
  has been loaded; if it is set to a non-empty string, the cell does not raise, it
  yields the token, and the models are loaded with it.
\<close>

theorem Configuration_checks_HF_TOKEN:
  "(load_dotenv environ ''HF_TOKEN'' = None \<or> load_dotenv environ ''HF_TOKEN'' = Some ''''
      \<longrightarrow>
      run_cells load_dotenv environ =
        ([], Inl (ValueError
           ''HF_TOKEN not found in environment variables. Please set it up first.''))) \<and>
   (load_dotenv environ ''HF_TOKEN'' = Some tok \<and> tok \<noteq> '''' \<longrightarrow>
      Configuration load_dotenv environ = Inr tok \<and>
      run_cells load_dotenv environ = (Model_Initialization tok, Inr tok))"
  by (auto simp: run_cells_def Configuration_def)

text \<open>Three runs: the variable unset and no \<^verbatim>\<open>.env\<close> entry; the variable set to the
  empty string and left so; the variable unset and supplied by \<^verbatim>\<open>load_dotenv\<close>.\<close>

theorem Configuration_checks_HF_TOKEN_witness:
  "run_cells (\<lambda>env. env) Map.empty =
     ([], Inl (ValueError
        ''HF_TOKEN not found in environment variables. Please set it up first.'')) \<and>
   run_cells (\<lambda>env. env) [''HF_TOKEN'' \<mapsto> ''''] =
     ([], Inl (ValueError
        ''HF_TOKEN not found in environment variables. Please set it up first.'')) \<and>
   Configuration (\<lambda>env. [''HF_TOKEN'' \<mapsto> ''hf_abc''] ++ env) Map.empty = Inr ''hf_abc'' \<and>
   run_cells (\<lambda>env. [''HF_TOKEN'' \<mapsto> ''hf_abc''] ++ env) Map.empty =
     ([Whisper_model ''large-v3'',
       Pipeline ''pyannote/speaker-diarization-3.1'' ''hf_abc''], Inr ''hf_abc'')"
proof -
  have unset: "(\<lambda>env. env) (Map.empty :: environ) ''HF_TOKEN'' = None \<or>
      (\<lambda>env. env) (Map.empty :: environ) ''HF_TOKEN'' = Some ''''"
    by simp
  have empty: "(\<lambda>env. env) [''HF_TOKEN'' \<mapsto> ''''] ''HF_TOKEN'' = None \<or>
      (\<lambda>env. env) [''HF_TOKEN'' \<mapsto> ''''] ''HF_TOKEN'' = Some ''''"
    by simp
  have present: "(\<lambda>env. [''HF_TOKEN'' \<mapsto> ''hf_abc''] ++ env) Map.empty ''HF_TOKEN''
      = Some ''hf_abc'' \<and> ''hf_abc'' \<noteq> ''''"
    by simp
  note a = Configuration_checks_HF_TOKEN [of "\<lambda>env. env" Map.empty, THEN conjunct1,
      THEN mp, OF unset]
  note b = Configuration_checks_HF_TOKEN [of "\<lambda>env. env" "[''HF_TOKEN'' \<mapsto> '''']",
      THEN conjunct1, THEN mp, OF empty]
  note c = Configuration_checks_HF_TOKEN
      [of "\<lambda>env. [''HF_TOKEN'' \<mapsto> ''hf_abc''] ++ env" Map.empty "''hf_abc''",
       THEN conjunct2, THEN mp, OF present]
  from a b c show ?thesis
    by (simp add: Model_Initialization_def)
qed

end
